theory Spec2Isabelle
  imports Complex_Main
begin

section \<open>Adaptive scalar Kalman filter: the notebook as HOL functions\<close>

text \<open>
  The notebook \<^verbatim>\<open>adaptive_kalman_filter_scalar_tiny_plot.ipynb\<close> is a script of five code
  cells working on module-level variables. Its numbers are modelled as exact reals (the
  source computes in IEEE doubles; rounding, overflow, infinities and NaN are outside this
  model).
  Module-level variables that are written once (\<^verbatim>\<open>F, H, Q\<close> and the precomputed
  quantities) are the record \<open>params\<close>; those the loop mutates are the record \<open>state\<close>.
  Every Python exception the modelled lines can raise is a value of \<open>error\<close>.
  The random draws \<^verbatim>\<open>w, v\<close> of line 156 are an input of the loop, one pair per step.
\<close>

datatype error = ZeroDivisionError | NameError | IndexError | TypeError | OverflowError

subsection \<open>Cell 2: precomputed quantities (lines 76-84)\<close>

record params =
  F :: real
  H :: real
  Q :: real
  Mopi :: real
  A1 :: real
  B1 :: real
  B2 :: real
  kronA :: real
  kronB :: real
  S :: real
  CW :: real

text \<open>
  \<^verbatim>\<open>Mopi = 1/H\<close> divides Python numbers, so \<^verbatim>\<open>H = 0\<close> raises ZeroDivisionError there
  and nothing after it is computed. \<^verbatim>\<open>S = np.copy(kronB)\<close> is a copy of the value.
\<close>

definition precompute :: "real \<Rightarrow> real \<Rightarrow> real \<Rightarrow> error + params" where
  "precompute f h q =
     (if h = 0 then Inl ZeroDivisionError
      else
        (let mopi = 1 / h;
             a1 = 1;
             b1 = - f * mopi;
             b2 = mopi;
             krona = a1\<^sup>2;
             kronb = b1\<^sup>2 + b2\<^sup>2;
             s = kronb;
             cw = krona * q
         in Inr \<lparr>F = f, H = h, Q = q, Mopi = mopi, A1 = a1, B1 = b1, B2 = b2,
                 kronA = krona, kronB = kronb, S = s, CW = cw\<rparr>))"

text \<open>
  Line 84, \<^verbatim>\<open>print_k = np.logspace(0,np.log10(T),np.log10(T)+1)\<close>, ends cell 2. Its third
  argument, the number of samples, is a float. numpy from 1.18 on refuses a float there
  with TypeError; earlier numpy converts it with \<^verbatim>\<open>int\<close>, which raises OverflowError for
  \<^verbatim>\<open>T = 0\<close>, where \<^verbatim>\<open>np.log10(T)\<close> is minus infinity. The notebook does not fix the numpy
  it runs on, so whether a float is taken is the argument \<open>float_num\<close>. The array itself
  only serves the printing of lines 166-167 and is not modelled.
\<close>

definition print_k :: "bool \<Rightarrow> nat \<Rightarrow> error + unit" where
  "print_k float_num T =
     (if \<not> float_num then Inl TypeError
      else if T = 0 then Inl OverflowError
      else Inr ())"

subsection \<open>Cell 3: \<^verbatim>\<open>noise_covariance_estimation\<close> (lines 108-111)\<close>

text \<open>
  The source reads the step counter \<^verbatim>\<open>k\<close> and the precomputed quantities from the module;
  here they are arguments. Both divisions are guarded: by \<^verbatim>\<open>k\<close> (ZeroDivisionError on
  Python numbers) and by \<^verbatim>\<open>S\<close> (a numpy value, where the quotient would be inf or nan and
  not a real number); in either case no real result exists and the model returns an error.
\<close>

definition noise_covariance_estimation ::
    "params \<Rightarrow> nat \<Rightarrow> real \<Rightarrow> real \<Rightarrow> real \<Rightarrow> error + (real \<times> real)" where
  "noise_covariance_estimation c k y_new y_old l =
     (if k = 0 \<or> S c = 0 then Inl ZeroDivisionError
      else
        (let Z = Mopi c * (y_new - F c * y_old);
             l' = l * (real k - 1) / real k + Z * Z / real k
         in Inr ((l' - CW c) / S c, l')))"

subsection \<open>Cell 4: \<^verbatim>\<open>state_estimation\<close> (lines 124-131)\<close>

text \<open>
  The source reads \<^verbatim>\<open>ynew\<close> and \<^verbatim>\<open>R_est\<close> from the module; here they are arguments.
  The division of line 127 has no result when its divisor is zero.
\<close>

definition state_estimation ::
    "params \<Rightarrow> real \<Rightarrow> real \<Rightarrow> real \<Rightarrow> real \<Rightarrow> error + (real \<times> real)" where
  "state_estimation c ynew r_est xp pp =
     (let x_pre = F c * xp;
          P_pre = F c * pp * F c + Q c
      in if H c * P_pre * H c + r_est = 0 then Inl ZeroDivisionError
         else
           (let K = P_pre * H c / (H c * P_pre * H c + r_est);
                xp' = x_pre + K * (ynew - H c * x_pre);
                IKH = 1 - K * H c;
                pp' = IKH * P_pre * IKH + K * r_est * K
            in Inr (xp', pp')))"

subsection \<open>Cells 1 and 5: the variables of the run and the loop (lines 48-52, 155-165)\<close>

record state =
  x :: real
  x_post :: real
  P_post :: real
  R_est :: real
  L :: real
  yold :: "real option"
  R_est_history :: "real list"

text \<open>
  Lines 158-161: the noise update, skipped at \<^verbatim>\<open>k = 0\<close>. \<^verbatim>\<open>yold\<close> is unbound until the
  first pass through line 165, so reading it earlier is a NameError.
\<close>

definition noise_update :: "params \<Rightarrow> nat \<Rightarrow> real \<Rightarrow> state \<Rightarrow> error + state" where
  "noise_update c k ynew s =
     (if k > 0 then
        (case yold s of
           None \<Rightarrow> Inl NameError
         | Some y \<Rightarrow>
             (case noise_covariance_estimation c k ynew y (L s) of
                Inl e \<Rightarrow> Inl e
              | Inr (R_est_new, l') \<Rightarrow>
                  Inr (if R_est_new > 0 then s\<lparr>L := l', R_est := R_est_new\<rparr>
                       else s\<lparr>L := l'\<rparr>)))
      else Inr s)"

text \<open>
  One pass of the loop body for step \<^verbatim>\<open>k\<close> with the draws \<^verbatim>\<open>(w, v)\<close>: lines 157-165.
  The printing of lines 166-167 changes no variable and is left out. An exception ends
  the run; the model then returns the error only.
\<close>

definition loop_body :: "params \<Rightarrow> nat \<Rightarrow> real \<times> real \<Rightarrow> state \<Rightarrow> error + state" where
  "loop_body c k wv s =
     (let w = fst wv; v = snd wv;
          ynew = H c * x s + v
      in case noise_update c k ynew s of
           Inl e \<Rightarrow> Inl e
         | Inr s1 \<Rightarrow>
             if length (R_est_history s1) \<le> k then Inl IndexError
             else
               (let s2 = s1\<lparr>R_est_history := (R_est_history s1)[k := R_est s1]\<rparr>
                in case state_estimation c ynew (R_est s2) (x_post s2) (P_post s2) of
                     Inl e \<Rightarrow> Inl e
                   | Inr (xp, pp) \<Rightarrow>
                       Inr (s2\<lparr>x_post := xp, P_post := pp,
                                x := F c * x s2 + w, yold := Some ynew\<rparr>)))"

text \<open>\<^verbatim>\<open>for k in range(T)\<close>, started at step \<open>k\<close>, one pair of draws per remaining step.\<close>

fun loop :: "params \<Rightarrow> nat \<Rightarrow> (real \<times> real) list \<Rightarrow> state \<Rightarrow> error + state" where
  "loop c k [] s = Inr s"
| "loop c k (wv # rest) s =
     (case loop_body c k wv s of
        Inl e \<Rightarrow> Inl e
      | Inr s' \<Rightarrow> loop c (Suc k) rest s')"

text \<open>
  Cells 1 and 2 together: the variables as they stand when the loop starts. The source
  fixes \<^verbatim>\<open>F, H, Q = 0.5, 2, 4\<close>, \<^verbatim>\<open>x_post, P_post, R_est, L = 0, 100, 100, 0\<close> and
  \<^verbatim>\<open>T = 100000\<close>, and draws \<^verbatim>\<open>x\<close> at random; here all of them are arguments.
  \<^verbatim>\<open>R_est_history = np.zeros(T)\<close>. Cell 1 (lines 48-52) only assigns; in cell 2 the
  division of line 76 comes first and line 84 last.
\<close>

definition initialise ::
    "bool \<Rightarrow> real \<Rightarrow> real \<Rightarrow> real \<Rightarrow> real \<Rightarrow> real \<Rightarrow> real \<Rightarrow> real \<Rightarrow> real \<Rightarrow> nat
      \<Rightarrow> error + (params \<times> state)" where
  "initialise float_num f h q x0 x_post0 P_post0 R_est0 L0 T =
     (let s0 = \<lparr>x = x0, x_post = x_post0, P_post = P_post0, R_est = R_est0, L = L0,
                 yold = None, R_est_history = replicate T 0\<rparr>
      in case precompute f h q of
           Inl e \<Rightarrow> Inl e
         | Inr c \<Rightarrow>
             (case print_k float_num T of
                Inl e \<Rightarrow> Inl e
              | Inr _ \<Rightarrow> Inr (c, s0)))"

definition run ::
    "bool \<Rightarrow> real \<Rightarrow> real \<Rightarrow> real \<Rightarrow> real \<Rightarrow> real \<Rightarrow> real \<Rightarrow> real \<Rightarrow> real
      \<Rightarrow> (real \<times> real) list \<Rightarrow> error + state" where
  "run float_num f h q x0 x_post0 P_post0 R_est0 L0 draws =
     (case initialise float_num f h q x0 x_post0 P_post0 R_est0 L0 (length draws) of
        Inl e \<Rightarrow> Inl e
      | Inr (c, s0) \<Rightarrow> loop c 0 draws s0)"

text \<open>The measurements \<^verbatim>\<open>ynew\<close> of a run, in order (lines 157 and 164).\<close>

fun ynews :: "params \<Rightarrow> real \<Rightarrow> (real \<times> real) list \<Rightarrow> real list" where
  "ynews c x0 [] = []"
| "ynews c x0 (wv # rest) = (H c * x0 + snd wv) # ynews c (F c * x0 + fst wv) rest"

text \<open>The value of \<^verbatim>\<open>x\<close> after the draws (line 164).\<close>

fun x_after :: "params \<Rightarrow> real \<Rightarrow> (real \<times> real) list \<Rightarrow> real" where
  "x_after c x0 [] = x0"
| "x_after c x0 (wv # rest) = x_after c (F c * x0 + fst wv) rest"

text \<open>The squared scaled innovation of measurements \<open>i\<close> and \<open>i + 1\<close> of a list.\<close>

definition Zsq :: "params \<Rightarrow> real list \<Rightarrow> nat \<Rightarrow> real" where
  "Zsq c ys i = (Mopi c * (ys ! Suc i - F c * ys ! i))\<^sup>2"

text \<open>The values the notebook itself runs with: \<^verbatim>\<open>F, H, Q = 0.5, 2, 4\<close> and what cell 2 computes from them.\<close>

definition notebook_params :: params where
  "notebook_params =
     \<lparr>F = 1/2, H = 2, Q = 4, Mopi = 1/2, A1 = 1, B1 = - (1/4), B2 = 1/2,
      kronA = 1, kronB = 5/16, S = 5/16, CW = 4\<rparr>"

section \<open>The state-estimation step\<close>

lemma state_estimation_Inr:
  assumes "H c * (F c * pp * F c + Q c) * H c + r \<noteq> 0"
  shows "state_estimation c ynew r xp pp =
           Inr (F c * xp + (F c * pp * F c + Q c) * H c / (H c * (F c * pp * F c + Q c) * H c + r)
                  * (ynew - H c * (F c * xp)),
                (1 - (F c * pp * F c + Q c) * H c / (H c * (F c * pp * F c + Q c) * H c + r) * H c)
                  * (F c * pp * F c + Q c)
                  * (1 - (F c * pp * F c + Q c) * H c / (H c * (F c * pp * F c + Q c) * H c + r) * H c)
                + (F c * pp * F c + Q c) * H c / (H c * (F c * pp * F c + Q c) * H c + r) * r
                  * ((F c * pp * F c + Q c) * H c / (H c * (F c * pp * F c + Q c) * H c + r)))"
  using assms by (simp add: state_estimation_def Let_def)

text \<open>The result with the squares written as powers.\<close>

lemma state_estimation_squares:
  assumes "x_pre = F c * x_post_prev"
    and "P_pre = (F c)\<^sup>2 * P_post_prev + Q c"
    and "K = (P_pre * H c) / ((H c)\<^sup>2 * P_pre + r_est)"
    and "(H c)\<^sup>2 * P_pre + r_est \<noteq> 0"
  shows "state_estimation c y_new r_est x_post_prev P_post_prev =
           Inr (x_pre + K * (y_new - H c * x_pre), (1 - K * H c)\<^sup>2 * P_pre + K\<^sup>2 * r_est)"
proof -
  have P: "F c * P_post_prev * F c + Q c = P_pre"
    using assms(2) by (simp add: power2_eq_square)
  have D: "H c * P_pre * H c + r_est = (H c)\<^sup>2 * P_pre + r_est"
    by (simp add: power2_eq_square)
  have nz: "H c * (F c * P_post_prev * F c + Q c) * H c + r_est \<noteq> 0"
    using assms(4) unfolding P D .
  show ?thesis
    unfolding state_estimation_Inr [OF nz] P D assms(1) assms(3)
    by (simp add: power2_eq_square)
qed

text \<open>The same result with the local variables of the source named.\<close>

lemma state_estimation_locals:
  assumes "P_pre = F c * pp * F c + Q c"
    and "H c * P_pre * H c + r \<noteq> 0"
    and "K = P_pre * H c / (H c * P_pre * H c + r)"
  shows "state_estimation c ynew r xp pp =
           Inr (F c * xp + K * (ynew - H c * (F c * xp)),
                (1 - K * H c) * P_pre * (1 - K * H c) + K * r * K)"
  using assms by (simp add: state_estimation_def Let_def)

lemma joseph_simplified:
  fixes P h r :: real
  assumes "h\<^sup>2 * P + r \<noteq> 0"
  shows "(1 - P * h / (h\<^sup>2 * P + r) * h)\<^sup>2 * P + (P * h / (h\<^sup>2 * P + r))\<^sup>2 * r
           = (1 - P * h / (h\<^sup>2 * P + r) * h) * P"
proof -
  define D where "D = h\<^sup>2 * P + r"
  have D0: "D \<noteq> 0" using assms by (simp add: D_def)
  have r: "r = D - h\<^sup>2 * P" by (simp add: D_def)
  have I: "1 - P * h / D * h = r / D"
    using D0 by (simp add: field_simps r power2_eq_square)
  have "(r / D)\<^sup>2 * P + (P * h / D)\<^sup>2 * r = r * P * (r + h\<^sup>2 * P) / D\<^sup>2"
    using D0 by (simp add: field_simps power2_eq_square)
  also have "\<dots> = r * P * D / D\<^sup>2" by (simp add: D_def add.commute)
  also have "\<dots> = r / D * P" using D0 by (simp add: power2_eq_square)
  finally show ?thesis unfolding I D_def[symmetric] .
qed

lemma gain_bounds:
  fixes P h r :: real
  assumes "0 \<le> P" "0 < r"
  shows "0 \<le> P * h / (h\<^sup>2 * P + r) * h" "P * h / (h\<^sup>2 * P + r) * h < 1"
proof -
  have hp: "0 \<le> h\<^sup>2 * P" using assms by simp
  then have D: "0 < h\<^sup>2 * P + r" using assms by linarith
  have e: "P * h / (h\<^sup>2 * P + r) * h = h\<^sup>2 * P / (h\<^sup>2 * P + r)"
    by (simp add: power2_eq_square)
  show "0 \<le> P * h / (h\<^sup>2 * P + r) * h" unfolding e using hp D by simp
  show "P * h / (h\<^sup>2 * P + r) * h < 1" unfolding e using D assms by simp
qed

lemma P_pre_nonneg:
  fixes f pp q :: real
  assumes "0 \<le> pp" "0 \<le> q"
  shows "0 \<le> f * pp * f + q"
proof -
  have e: "f * pp * f = f\<^sup>2 * pp" by (simp add: power2_eq_square)
  have "0 \<le> f\<^sup>2 * pp" using assms(1) by simp
  with assms(2) show ?thesis unfolding e by linarith
qed

lemma divisor_positive:
  fixes h P r :: real
  assumes "0 \<le> P" "0 < r"
  shows "0 < h * P * h + r"
proof -
  have "h * P * h = h\<^sup>2 * P" by (simp add: power2_eq_square)
  moreover have "0 \<le> h\<^sup>2 * P" using assms by simp
  ultimately show ?thesis using assms by linarith
qed

lemma state_estimation_total:
  assumes "0 \<le> pp" "0 \<le> Q c" "0 < r"
  shows "\<exists>xp' pp'. state_estimation c ynew r xp pp = Inr (xp', pp') \<and> 0 \<le> pp'"
proof -
  define P_pre where "P_pre = F c * pp * F c + Q c"
  define K where "K = P_pre * H c / (H c * P_pre * H c + r)"
  have P0: "0 \<le> P_pre" unfolding P_pre_def using assms(1,2) by (rule P_pre_nonneg)
  have D: "H c * P_pre * H c + r \<noteq> 0" using divisor_positive [OF P0 assms(3), of "H c"] by simp
  have eq: "state_estimation c ynew r xp pp =
           Inr (F c * xp + K * (ynew - H c * (F c * xp)),
                (1 - K * H c) * P_pre * (1 - K * H c) + K * r * K)"
    using P_pre_def D K_def by (rule state_estimation_locals)
  have "(1 - K * H c) * P_pre * (1 - K * H c) = (1 - K * H c)\<^sup>2 * P_pre"
    by (simp add: power2_eq_square)
  moreover have "K * r * K = K\<^sup>2 * r" by (simp add: power2_eq_square)
  moreover have "0 \<le> (1 - K * H c)\<^sup>2 * P_pre" using P0 by simp
  moreover have "0 \<le> K\<^sup>2 * r" using assms(3) by simp
  ultimately have "0 \<le> (1 - K * H c) * P_pre * (1 - K * H c) + K * r * K" by linarith
  with eq show ?thesis by blast
qed

text \<open>
  C4. With a non-zero divisor \<open>H\<^sup>2 P_pre + R_est\<close>, one state-estimation step returns
  \<open>x_post = x_pre + K (y_new - H x_pre)\<close> and \<open>P_post = (1 - K H)\<^sup>2 P_pre + K\<^sup>2 R_est\<close>, where
  \<open>x_pre = F x_post_prev\<close>, \<open>P_pre = F\<^sup>2 P_post_prev + Q\<close> and
  \<open>K = P_pre H / (H\<^sup>2 P_pre + R_est)\<close>.
\<close>

theorem state_estimation_formulas:
  assumes "x_pre = F c * x_post_prev"
    and "P_pre = (F c)\<^sup>2 * P_post_prev + Q c"
    and "K = (P_pre * H c) / ((H c)\<^sup>2 * P_pre + r_est)"
    and "(H c)\<^sup>2 * P_pre + r_est \<noteq> 0"
  shows "state_estimation c y_new r_est x_post_prev P_post_prev =
           Inr (x_pre + K * (y_new - H c * x_pre), (1 - K * H c)\<^sup>2 * P_pre + K\<^sup>2 * r_est)"
  using assms by (rule state_estimation_squares)

theorem state_estimation_formulas_witness:
  "state_estimation notebook_params 1 100 0 100 = Inr (29/108, 725/54)"
  using state_estimation_formulas [of 0 notebook_params 0 29 100 "29/108" 100 1]
  by (simp add: notebook_params_def power2_eq_square)

text \<open>
  C5. With \<open>P_post_prev \<ge> 0\<close>, \<open>Q \<ge> 0\<close> and \<open>R_est > 0\<close>, the state-estimation step returns
  a result (its divisor is positive), and the \<open>P_post\<close> it returns is \<open>\<ge> 0\<close>.
\<close>

theorem P_post_nonneg:
  assumes "0 \<le> P_post_prev" and "0 \<le> Q c" and "0 < r_est"
  shows "\<exists>xp' pp'. state_estimation c y_new r_est x_post_prev P_post_prev = Inr (xp', pp')
           \<and> 0 \<le> pp'"
  using assms by (rule state_estimation_total)

theorem P_post_nonneg_witness:
  "0 \<le> (100::real) \<and> 0 \<le> Q notebook_params \<and> 0 < (100::real)
     \<and> (\<exists>xp' pp'. state_estimation notebook_params 1 100 0 100 = Inr (xp', pp') \<and> 0 \<le> pp')"
  using P_post_nonneg [of 100 notebook_params 100 1 0]
  by (simp add: notebook_params_def)

text \<open>
  C8. With a non-zero divisor \<open>H\<^sup>2 P_pre + R_est\<close> and \<open>K = P_pre H / (H\<^sup>2 P_pre + R_est)\<close>,
  the Joseph form \<open>(1 - K H)\<^sup>2 P_pre + K\<^sup>2 R_est\<close> equals the simplified form
  \<open>(1 - K H) P_pre\<close>, so the \<open>P_post\<close> that the state-estimation step returns is the
  simplified form.
\<close>

theorem joseph_equals_simplified:
  assumes "P_pre = (F c)\<^sup>2 * P_post_prev + Q c"
    and "K = (P_pre * H c) / ((H c)\<^sup>2 * P_pre + r_est)"
    and "(H c)\<^sup>2 * P_pre + r_est \<noteq> 0"
  shows "(1 - K * H c)\<^sup>2 * P_pre + K\<^sup>2 * r_est = (1 - K * H c) * P_pre
         \<and> state_estimation c y_new r_est x_post_prev P_post_prev =
             Inr (F c * x_post_prev + K * (y_new - H c * (F c * x_post_prev)),
                  (1 - K * H c) * P_pre)"
proof -
  have J: "(1 - K * H c)\<^sup>2 * P_pre + K\<^sup>2 * r_est = (1 - K * H c) * P_pre"
    unfolding assms(2) using assms(3) by (rule joseph_simplified)
  have "state_estimation c y_new r_est x_post_prev P_post_prev =
          Inr (F c * x_post_prev + K * (y_new - H c * (F c * x_post_prev)),
               (1 - K * H c)\<^sup>2 * P_pre + K\<^sup>2 * r_est)"
    using refl assms(1) assms(2) assms(3) by (rule state_estimation_squares)
  then show ?thesis unfolding J by simp
qed

theorem joseph_equals_simplified_witness:
  "(1 - 29/108 * H notebook_params)\<^sup>2 * 29 + (29/108)\<^sup>2 * 100
      = (1 - 29/108 * H notebook_params) * 29
   \<and> state_estimation notebook_params 1 100 0 100 = Inr (29/108, 725/54)"
  using joseph_equals_simplified [of 29 notebook_params 100 "29/108" 100 1 0]
  by (simp add: notebook_params_def power2_eq_square)

text \<open>
  C10. With \<open>P_pre \<ge> 0\<close> and \<open>R_est > 0\<close>, the gain \<open>K = P_pre H / (H\<^sup>2 P_pre + R_est)\<close> that the
  state-estimation step computes satisfies \<open>0 \<le> K H < 1\<close>, so \<open>1 - K H\<close> lies in \<open>(0, 1]\<close>;
  the step returns the values built from this \<open>K\<close>.
\<close>

theorem gain_times_H_bounds:
  assumes "P_pre = F c * P_post_prev * F c + Q c"
    and "K = P_pre * H c / (H c * P_pre * H c + r_est)"
    and "0 \<le> P_pre" and "0 < r_est"
  shows "0 \<le> K * H c \<and> K * H c < 1 \<and> 0 < 1 - K * H c \<and> 1 - K * H c \<le> 1
         \<and> state_estimation c y_new r_est x_post_prev P_post_prev =
             Inr (F c * x_post_prev + K * (y_new - H c * (F c * x_post_prev)),
                  (1 - K * H c) * P_pre * (1 - K * H c) + K * r_est * K)"
proof -
  have D: "H c * P_pre * H c + r_est = (H c)\<^sup>2 * P_pre + r_est"
    by (simp add: power2_eq_square)
  have lo: "0 \<le> K * H c" unfolding assms(2) D using assms(3,4) by (rule gain_bounds(1))
  have hi: "K * H c < 1" unfolding assms(2) D using assms(3,4) by (rule gain_bounds(2))
  have nz: "H c * P_pre * H c + r_est \<noteq> 0"
    using divisor_positive [OF assms(3,4), of "H c"] by simp
  have "state_estimation c y_new r_est x_post_prev P_post_prev =
          Inr (F c * x_post_prev + K * (y_new - H c * (F c * x_post_prev)),
               (1 - K * H c) * P_pre * (1 - K * H c) + K * r_est * K)"
    using assms(1) nz assms(2) by (rule state_estimation_locals)
  with lo hi show ?thesis by simp
qed

theorem gain_times_H_bounds_witness:
  "0 \<le> 29/108 * H notebook_params \<and> 29/108 * H notebook_params < 1
   \<and> state_estimation notebook_params 1 100 0 100 = Inr (29/108, 725/54)"
  using gain_times_H_bounds [of 29 notebook_params 100 "29/108" 100 1 0]
  by (simp add: notebook_params_def)

section \<open>The precomputed quantities and the noise estimator\<close>

lemma precompute_Inr:
  assumes "precompute f h q = Inr c"
  shows "h \<noteq> 0"
    and "c = \<lparr>F = f, H = h, Q = q, Mopi = 1 / h, A1 = 1, B1 = - f * (1 / h), B2 = 1 / h,
              kronA = 1, kronB = (- f * (1 / h))\<^sup>2 + (1 / h)\<^sup>2,
              S = (- f * (1 / h))\<^sup>2 + (1 / h)\<^sup>2, CW = q\<rparr>"
  using assms by (auto simp: precompute_def Let_def split: if_splits)

lemma precompute_S_pos:
  assumes "precompute f h q = Inr c"
  shows "0 < S c"
proof -
  have h: "h \<noteq> 0" using assms by (rule precompute_Inr(1))
  have "S c = (- f * (1 / h))\<^sup>2 + (1 / h)\<^sup>2"
    by (subst precompute_Inr(2) [OF assms]) simp
  moreover have "0 < (1 / h)\<^sup>2" using h by simp
  moreover have "0 \<le> (- f * (1 / h))\<^sup>2" by simp
  ultimately show ?thesis by linarith
qed

lemma precompute_notebook: "precompute (1/2) 2 4 = Inr notebook_params"
  by (simp add: precompute_def notebook_params_def Let_def power2_eq_square)

text \<open>
  Setting up the run: \<^verbatim>\<open>H = 0\<close> stops it at line 76, the priors play no part in whether
  it fails, and they are stored as given.
\<close>

lemma initialise_H_zero:
  "initialise np f 0 q x0 xp0 pp0 r0 l0 T = Inl ZeroDivisionError"
  by (simp add: initialise_def precompute_def)

lemma initialise_Inl_priors:
  "initialise np f h q x0 xp0 pp0 r0 l0 T = Inl e
     \<longleftrightarrow> initialise np f h q x0 xp1 pp1 r1 l1 T = Inl e"
  by (simp add: initialise_def Let_def split: sum.splits)

lemma initialise_Inr_state:
  assumes "initialise np f h q x0 xp0 pp0 r0 l0 T = Inr (c, s)"
  shows "s = \<lparr>x = x0, x_post = xp0, P_post = pp0, R_est = r0, L = l0,
               yold = None, R_est_history = replicate T 0\<rparr>"
  using assms by (simp add: initialise_def Let_def split: sum.splits)

lemma initialise_Inr:
  assumes "h \<noteq> 0" and "np" and "0 < T"
  shows "\<exists>c. precompute f h q = Inr c
           \<and> initialise np f h q x0 xp0 pp0 r0 l0 T =
               Inr (c, \<lparr>x = x0, x_post = xp0, P_post = pp0, R_est = r0, L = l0,
                        yold = None, R_est_history = replicate T 0\<rparr>)"
  using assms by (simp add: initialise_def precompute_def print_k_def Let_def)

lemma noise_covariance_estimation_Inr:
  assumes "0 < k" "S c \<noteq> 0"
  shows "noise_covariance_estimation c k y_new y_old l =
           Inr ((l * (real k - 1) / real k
                   + Mopi c * (y_new - F c * y_old) * (Mopi c * (y_new - F c * y_old)) / real k
                   - CW c) / S c,
                l * (real k - 1) / real k
                   + Mopi c * (y_new - F c * y_old) * (Mopi c * (y_new - F c * y_old)) / real k)"
  using assms by (simp add: noise_covariance_estimation_def Let_def)

lemma noise_update_zero: "noise_update c 0 ynew s = Inr s"
  by (simp add: noise_update_def)

lemma noise_update_pos:
  assumes "0 < k" "yold s = Some y"
    and "noise_covariance_estimation c k ynew y (L s) = Inr (r, l')"
  shows "noise_update c k ynew s = Inr (s\<lparr>L := l', R_est := (if 0 < r then r else R_est s)\<rparr>)"
  using assms by (simp add: noise_update_def)

lemma noise_update_InrE:
  assumes "noise_update c k ynew s = Inr s1"
  shows "(k = 0 \<and> s1 = s) \<or>
         (0 < k \<and> (\<exists>y r l'. yold s = Some y
              \<and> noise_covariance_estimation c k ynew y (L s) = Inr (r, l')
              \<and> s1 = s\<lparr>L := l', R_est := (if 0 < r then r else R_est s)\<rparr>))"
  using assms
  by (auto simp: noise_update_def split: if_splits option.splits sum.splits)

lemma loop_body_InrE:
  assumes "loop_body c k wv s = Inr s'"
  shows "\<exists>s1 xp pp. noise_update c k (H c * x s + snd wv) s = Inr s1
           \<and> k < length (R_est_history s1)
           \<and> state_estimation c (H c * x s + snd wv) (R_est s1) (x_post s1) (P_post s1) = Inr (xp, pp)
           \<and> s' = s1\<lparr>R_est_history := (R_est_history s1)[k := R_est s1],
                      x_post := xp, P_post := pp, x := F c * x s1 + fst wv,
                      yold := Some (H c * x s + snd wv)\<rparr>"
  using assms
  by (auto simp: loop_body_def Let_def split: if_splits sum.splits)

lemma loop_body_InrI:
  assumes "noise_update c k (H c * x s + snd wv) s = Inr s1"
    and "k < length (R_est_history s1)"
    and "state_estimation c (H c * x s + snd wv) (R_est s1) (x_post s1) (P_post s1) = Inr (xp, pp)"
  shows "loop_body c k wv s =
           Inr (s1\<lparr>R_est_history := (R_est_history s1)[k := R_est s1],
                    x_post := xp, P_post := pp, x := F c * x s1 + fst wv,
                    yold := Some (H c * x s + snd wv)\<rparr>)"
  using assms by (simp add: loop_body_def Let_def)

section \<open>Invariants of the loop\<close>

subsection \<open>Positive \<open>R_est\<close> and the recorded history\<close>

lemma noise_update_frame:
  assumes "noise_update c k ynew s = Inr s1"
  shows "x s1 = x s" "x_post s1 = x_post s" "P_post s1 = P_post s" "yold s1 = yold s"
    "R_est_history s1 = R_est_history s"
  using noise_update_InrE [OF assms] by auto

lemma noise_update_R_est_pos:
  assumes "noise_update c k ynew s = Inr s1" "0 < R_est s"
  shows "0 < R_est s1"
proof -
  from noise_update_InrE [OF assms(1)] consider "s1 = s"
    | r l' where "s1 = s\<lparr>L := l', R_est := (if 0 < r then r else R_est s)\<rparr>"
    by blast
  then show ?thesis
  proof cases
    case 1
    then show ?thesis using assms(2) by simp
  next
    case 2
    then have "R_est s1 = (if 0 < r then r else R_est s)" by simp
    then show ?thesis using assms(2) by (cases "0 < r") simp_all
  qed
qed

lemma loop_body_R_est_pos:
  assumes "loop_body c k wv s = Inr s'" "0 < R_est s"
  shows "0 < R_est s'"
proof -
  from loop_body_InrE [OF assms(1)] obtain s1 xp pp where
    n: "noise_update c k (H c * x s + snd wv) s = Inr s1"
    and s': "s' = s1\<lparr>R_est_history := (R_est_history s1)[k := R_est s1],
                      x_post := xp, P_post := pp, x := F c * x s1 + fst wv,
                      yold := Some (H c * x s + snd wv)\<rparr>"
    by blast
  have "0 < R_est s1" using n assms(2) by (rule noise_update_R_est_pos)
  then show ?thesis by (simp add: s')
qed

lemma loop_body_history:
  assumes "loop_body c k wv s = Inr s'"
  shows "k < length (R_est_history s)"
    and "R_est_history s' = (R_est_history s)[k := R_est s']"
proof -
  from loop_body_InrE [OF assms(1)] obtain s1 xp pp where
    n: "noise_update c k (H c * x s + snd wv) s = Inr s1"
    and k: "k < length (R_est_history s1)"
    and s': "s' = s1\<lparr>R_est_history := (R_est_history s1)[k := R_est s1],
                      x_post := xp, P_post := pp, x := F c * x s1 + fst wv,
                      yold := Some (H c * x s + snd wv)\<rparr>"
    by blast
  have h: "R_est_history s1 = R_est_history s" using n by (rule noise_update_frame(5))
  show "k < length (R_est_history s)" using k h by simp
  show "R_est_history s' = (R_est_history s)[k := R_est s']" by (simp add: s' h)
qed

lemma loop_history_below:
  assumes "loop c k draws s0 = Inr s"
  shows "length (R_est_history s) = length (R_est_history s0)
         \<and> (\<forall>i<k. R_est_history s ! i = R_est_history s0 ! i)"
  using assms
proof (induction draws arbitrary: k s0)
  case Nil
  then show ?case by simp
next
  case (Cons wv rest)
  from Cons.prems obtain s1 where
    b: "loop_body c k wv s0 = Inr s1" and r: "loop c (Suc k) rest s1 = Inr s"
    by (auto split: sum.splits)
  have h1: "R_est_history s1 = (R_est_history s0)[k := R_est s1]"
    using b by (rule loop_body_history(2))
  from Cons.IH [OF r] have
    l: "length (R_est_history s) = length (R_est_history s1)"
    and n: "\<forall>i<Suc k. R_est_history s ! i = R_est_history s1 ! i"
    by simp_all
  show ?case using l n h1 by simp
qed

lemma loop_R_est_pos:
  assumes "loop c k draws s0 = Inr s" "0 < R_est s0"
  shows "0 < R_est s \<and> (\<forall>i. k \<le> i \<and> i < k + length draws \<longrightarrow> 0 < R_est_history s ! i)"
  using assms
proof (induction draws arbitrary: k s0)
  case Nil
  then show ?case by simp
next
  case (Cons wv rest)
  from Cons.prems(1) obtain s1 where
    b: "loop_body c k wv s0 = Inr s1" and r: "loop c (Suc k) rest s1 = Inr s"
    by (auto split: sum.splits)
  have p1: "0 < R_est s1" using b Cons.prems(2) by (rule loop_body_R_est_pos)
  have k: "k < length (R_est_history s0)" using b by (rule loop_body_history(1))
  have h1: "R_est_history s1 = (R_est_history s0)[k := R_est s1]"
    using b by (rule loop_body_history(2))
  have hk: "R_est_history s1 ! k = R_est s1" using k h1 by simp
  have keep: "R_est_history s ! k = R_est_history s1 ! k"
    using loop_history_below [OF r] by simp
  from Cons.IH [OF r p1] have
    p: "0 < R_est s"
    and q: "\<forall>i. Suc k \<le> i \<and> i < Suc k + length rest \<longrightarrow> 0 < R_est_history s ! i"
    by simp_all
  have "0 < R_est_history s ! i" if "k \<le> i" "i < k + length (wv # rest)" for i
  proof (cases "i = k")
    case True
    then show ?thesis using keep hk p1 by simp
  next
    case False
    then show ?thesis using that q by simp
  qed
  with p show ?case by blast
qed

text \<open>The entry recorded for step 0 of a run is the prior \<open>R_est\<close>, also after all later steps.\<close>

lemma loop_first_record:
  assumes "loop c 0 (wv # rest) s0 = Inr s"
  shows "R_est_history s ! 0 = R_est s0"
proof -
  from assms obtain s1 where
    b: "loop_body c 0 wv s0 = Inr s1" and r: "loop c (Suc 0) rest s1 = Inr s"
    by (auto split: sum.splits)
  from loop_body_InrE [OF b] obtain sn xp pp where
    n: "noise_update c 0 (H c * x s0 + snd wv) s0 = Inr sn"
    and k: "0 < length (R_est_history sn)"
    and s1: "s1 = sn\<lparr>R_est_history := (R_est_history sn)[0 := R_est sn],
                      x_post := xp, P_post := pp, x := F c * x sn + fst wv,
                      yold := Some (H c * x s0 + snd wv)\<rparr>"
    by blast
  have "sn = s0" using n by (simp add: noise_update_zero)
  then have "R_est_history s1 ! 0 = R_est s0" using k by (simp add: s1)
  moreover have "R_est_history s ! 0 = R_est_history s1 ! 0"
    using loop_history_below [OF r] by simp
  ultimately show ?thesis by simp
qed

subsection \<open>The running mean\<close>

lemma loop_snoc:
  "loop c k (ds @ [d]) s =
     (case loop c k ds s of Inl e \<Rightarrow> Inl e | Inr s' \<Rightarrow> loop_body c (k + length ds) d s')"
  by (induction ds arbitrary: k s) (auto split: sum.splits)

lemma length_ynews: "length (ynews c x0 ds) = length ds"
  by (induction ds arbitrary: x0) auto

lemma x_after_snoc: "x_after c x0 (ds @ [d]) = F c * x_after c x0 ds + fst d"
  by (induction ds arbitrary: x0) auto

lemma ynews_snoc:
  "ynews c x0 (ds @ [d]) = ynews c x0 ds @ [H c * x_after c x0 ds + snd d]"
  by (induction ds arbitrary: x0) auto

lemma loop_body_x_yold:
  assumes "loop_body c k wv s = Inr s'"
  shows "x s' = F c * x s + fst wv" and "yold s' = Some (H c * x s + snd wv)"
proof -
  from loop_body_InrE [OF assms] obtain s1 xp pp where
    n: "noise_update c k (H c * x s + snd wv) s = Inr s1"
    and s': "s' = s1\<lparr>R_est_history := (R_est_history s1)[k := R_est s1],
                      x_post := xp, P_post := pp, x := F c * x s1 + fst wv,
                      yold := Some (H c * x s + snd wv)\<rparr>"
    by blast
  show "x s' = F c * x s + fst wv" by (simp add: s' noise_update_frame(1) [OF n])
  show "yold s' = Some (H c * x s + snd wv)" by (simp add: s')
qed

lemma loop_body_L:
  assumes "loop_body c k wv s = Inr s'"
  shows "k = 0 \<and> L s' = L s \<or>
         0 < k \<and> (\<exists>y. yold s = Some y \<and>
            L s' = L s * (real k - 1) / real k
                     + (Mopi c * (H c * x s + snd wv - F c * y))\<^sup>2 / real k)"
proof -
  from loop_body_InrE [OF assms] obtain s1 xp pp where
    n: "noise_update c k (H c * x s + snd wv) s = Inr s1"
    and s': "s' = s1\<lparr>R_est_history := (R_est_history s1)[k := R_est s1],
                      x_post := xp, P_post := pp, x := F c * x s1 + fst wv,
                      yold := Some (H c * x s + snd wv)\<rparr>"
    by blast
  have Ls: "L s' = L s1" by (simp add: s')
  from noise_update_InrE [OF n] show ?thesis
  proof (elim disjE conjE exE)
    assume "k = 0" "s1 = s"
    then show ?thesis using Ls by simp
  next
    fix y r l'
    assume k: "0 < k" and y: "yold s = Some y"
      and e: "noise_covariance_estimation c k (H c * x s + snd wv) y (L s) = Inr (r, l')"
      and s1: "s1 = s\<lparr>L := l', R_est := if 0 < r then r else R_est s\<rparr>"
    have "l' = L s * (real k - 1) / real k
                     + (Mopi c * (H c * x s + snd wv - F c * y))\<^sup>2 / real k"
      using e k
      by (auto simp: noise_covariance_estimation_def Let_def power2_eq_square split: if_splits)
    then show ?thesis using k y Ls s1 by simp
  qed
qed

lemma Zsq_append:
  assumes "Suc i < length ys"
  shows "Zsq c (ys @ zs) i = Zsq c ys i"
  using assms by (simp add: Zsq_def nth_append)

lemma Zsq_last:
  assumes "ys \<noteq> []"
  shows "Zsq c (ys @ [z]) (length ys - 1) = (Mopi c * (z - F c * last ys))\<^sup>2"
proof -
  have "Suc (length ys - 1) = length ys" using assms by simp
  moreover have "ys ! (length ys - 1) = last ys" using assms by (simp add: last_conv_nth)
  ultimately show ?thesis using assms by (simp add: Zsq_def nth_append)
qed

lemma loop_invariant:
  assumes "loop c 0 ds s0 = Inr s"
  shows "x s = x_after c (x s0) ds
       \<and> (ds \<noteq> [] \<longrightarrow> yold s = Some (last (ynews c (x s0) ds)))
       \<and> (2 \<le> length ds \<longrightarrow>
            L s = (\<Sum>i<length ds - 1. Zsq c (ynews c (x s0) ds) i) / real (length ds - 1))"
  using assms
proof (induction ds arbitrary: s rule: rev_induct)
  case Nil
  then show ?case by simp
next
  case (snoc d ds)
  from snoc.prems obtain sm where
    m: "loop c 0 ds s0 = Inr sm" and b: "loop_body c (length ds) d sm = Inr s"
    by (auto simp: loop_snoc split: sum.splits)
  note IH = snoc.IH [OF m]
  let ?ys = "ynews c (x s0) ds"
  let ?z = "H c * x_after c (x s0) ds + snd d"
  have xm: "x sm = x_after c (x s0) ds" using IH by simp
  have x: "x s = x_after c (x s0) (ds @ [d])"
    using loop_body_x_yold(1) [OF b] xm by (simp add: x_after_snoc)
  have y: "yold s = Some (last (ynews c (x s0) (ds @ [d])))"
    using loop_body_x_yold(2) [OF b] xm by (simp add: ynews_snoc)
  have Lm: "L s = (\<Sum>i<length ds. Zsq c (?ys @ [?z]) i) / real (length ds)"
    if two: "2 \<le> length (ds @ [d])"
  proof -
    have k: "0 < length ds" using two by (cases ds) simp_all
    have ne: "ds \<noteq> []" using k by (cases ds) simp_all
    have yne: "?ys \<noteq> []" using ne by (metis length_ynews length_0_conv)
    from loop_body_L [OF b] k obtain yp where
      yp: "yold sm = Some yp"
      and Ls: "L s = L sm * (real (length ds) - 1) / real (length ds)
                     + (Mopi c * (H c * x sm + snd d - F c * yp))\<^sup>2 / real (length ds)"
      by auto
    have yp': "yp = last ?ys" using IH ne yp by simp
    have lastZ: "(Mopi c * (H c * x sm + snd d - F c * yp))\<^sup>2
                   = Zsq c (?ys @ [?z]) (length ds - 1)"
      using Zsq_last [OF yne, of c ?z] by (simp add: yp' xm length_ynews)
    have split: "(\<Sum>i<length ds. Zsq c (?ys @ [?z]) i)
                  = (\<Sum>i<length ds - 1. Zsq c ?ys i) + Zsq c (?ys @ [?z]) (length ds - 1)"
    proof -
      have "{..<length ds} = insert (length ds - 1) {..<length ds - 1}"
        using k by auto
      then have "(\<Sum>i<length ds. Zsq c (?ys @ [?z]) i)
                  = Zsq c (?ys @ [?z]) (length ds - 1) + (\<Sum>i<length ds - 1. Zsq c (?ys @ [?z]) i)"
        by simp
      moreover have "(\<Sum>i<length ds - 1. Zsq c (?ys @ [?z]) i) = (\<Sum>i<length ds - 1. Zsq c ?ys i)"
        by (rule sum.cong) (auto simp: Zsq_append length_ynews)
      ultimately show ?thesis by simp
    qed
    show ?thesis
    proof (cases "length ds = 1")
      case True
      then show ?thesis using Ls lastZ by simp
    next
      case False
      then have two': "2 \<le> length ds" using k by linarith
      then have Lsm: "L sm = (\<Sum>i<length ds - 1. Zsq c ?ys i) / real (length ds - 1)"
        using IH by simp
      have k1: "1 \<le> length ds" using k by linarith
      have r: "real (length ds - 1) = real (length ds) - 1"
        using of_nat_diff [OF k1, where ?'a = real] by simp
      have nz: "real (length ds) - 1 \<noteq> 0" using two' by simp
      have "L s = (\<Sum>i<length ds - 1. Zsq c ?ys i) / real (length ds)
                    + Zsq c (?ys @ [?z]) (length ds - 1) / real (length ds)"
        unfolding Ls Lsm lastZ r using nz by simp
      then show ?thesis unfolding split by (simp add: add_divide_distrib)
    qed
  qed
  show ?case using x y Lm by (simp add: ynews_snoc)
qed

subsection \<open>Totality\<close>

text \<open>
  With \<open>H \<noteq> 0\<close>, \<open>Q \<ge> 0\<close>, \<open>P_post \<ge> 0\<close> and \<open>R_est > 0\<close> every step returns, so over exact
  reals a run that gets past line 84 is total; \<open>P_post\<close> stays non-negative and \<open>R_est\<close> positive through it.
\<close>

lemma loop_body_total:
  assumes "S c \<noteq> 0" and "0 \<le> Q c" and "0 \<le> P_post s" and "0 < R_est s"
    and "k < length (R_est_history s)" and "0 < k \<longrightarrow> yold s \<noteq> None"
  shows "\<exists>s'. loop_body c k wv s = Inr s' \<and> 0 \<le> P_post s' \<and> 0 < R_est s'
           \<and> length (R_est_history s') = length (R_est_history s) \<and> yold s' \<noteq> None"
proof -
  let ?y = "H c * x s + snd wv"
  have "\<exists>s1. noise_update c k ?y s = Inr s1"
  proof (cases "k = 0")
    case True
    then show ?thesis by (simp add: noise_update_zero)
  next
    case False
    then have k: "0 < k" by simp
    with assms(6) obtain y where y: "yold s = Some y" by auto
    show ?thesis
      using noise_update_pos [OF k y noise_covariance_estimation_Inr [OF k assms(1)]] by blast
  qed
  then obtain s1 where n: "noise_update c k ?y s = Inr s1" ..
  note fr = noise_update_frame [OF n]
  have r1: "0 < R_est s1" using n assms(4) by (rule noise_update_R_est_pos)
  have p1: "0 \<le> P_post s1" using assms(3) fr(3) by simp
  have k1: "k < length (R_est_history s1)" using assms(5) fr(5) by simp
  from state_estimation_total [OF p1 assms(2) r1] obtain xp pp where
    e: "state_estimation c ?y (R_est s1) (x_post s1) (P_post s1) = Inr (xp, pp)" and pp: "0 \<le> pp"
    by blast
  show ?thesis
    unfolding loop_body_InrI [OF n k1 e] using pp r1 fr(5) by simp
qed

lemma loop_total:
  assumes "S c \<noteq> 0" and "0 \<le> Q c" and "0 \<le> P_post s" and "0 < R_est s"
    and "k + length draws \<le> length (R_est_history s)" and "0 < k \<longrightarrow> yold s \<noteq> None"
  shows "\<exists>s'. loop c k draws s = Inr s' \<and> 0 \<le> P_post s' \<and> 0 < R_est s'"
  using assms(3-6)
proof (induction draws arbitrary: k s)
  case Nil
  then show ?case by simp
next
  case (Cons wv rest)
  have k: "k < length (R_est_history s)" using Cons.prems(3) by simp
  from loop_body_total [OF assms(1,2) Cons.prems(1,2) k Cons.prems(4)] obtain s1 where
    b: "loop_body c k wv s = Inr s1" and p: "0 \<le> P_post s1" and r: "0 < R_est s1"
    and l: "length (R_est_history s1) = length (R_est_history s)" and y: "yold s1 \<noteq> None"
    by blast
  have "Suc k + length rest \<le> length (R_est_history s1)" using Cons.prems(3) l by simp
  moreover have "0 < Suc k \<longrightarrow> yold s1 \<noteq> None" using y by simp
  ultimately obtain s' where "loop c (Suc k) rest s1 = Inr s'" "0 \<le> P_post s'" "0 < R_est s'"
    using Cons.IH [OF p r] by blast
  then show ?case using b by simp
qed

lemma run_total:
  assumes "h \<noteq> 0" and "0 \<le> q" and "0 \<le> P_post0" and "0 < R_est0"
    and "np" and "draws \<noteq> []"
  shows "\<exists>s. run np f h q x0 x_post0 P_post0 R_est0 L0 draws = Inr s
           \<and> 0 \<le> P_post s \<and> 0 < R_est s"
proof -
  have T: "0 < length draws" using assms(6) by (cases draws) simp_all
  from initialise_Inr [OF assms(1,5) T, of f q x0 x_post0 P_post0 R_est0 L0]
  obtain c where c: "precompute f h q = Inr c"
    and i: "initialise np f h q x0 x_post0 P_post0 R_est0 L0 (length draws) =
               Inr (c, \<lparr>x = x0, x_post = x_post0, P_post = P_post0, R_est = R_est0, L = L0,
                        yold = None, R_est_history = replicate (length draws) 0\<rparr>)"
    by blast
  let ?s0 = "\<lparr>x = x0, x_post = x_post0, P_post = P_post0, R_est = R_est0, L = L0,
                        yold = None, R_est_history = replicate (length draws) 0\<rparr>"
  have S: "S c \<noteq> 0" using precompute_S_pos [OF c] by simp
  have Q: "0 \<le> Q c" using assms(2) by (subst precompute_Inr(2) [OF c]) simp
  have "\<exists>s'. loop c 0 draws ?s0 = Inr s' \<and> 0 \<le> P_post s' \<and> 0 < R_est s'"
    by (rule loop_total [OF S Q]) (simp_all add: assms(3,4))
  then show ?thesis by (simp add: run_def i)
qed

section \<open>Claims about the noise estimator and the loop\<close>


lemma body_step1_reject:
  "loop_body notebook_params 1 (0, 1)
     \<lparr>x = 0, x_post = 0, P_post = 100, R_est = 100, L = 0, yold = Some 0,
      R_est_history = [100, 0]\<rparr>
   = Inr \<lparr>x = 0, x_post = 29/108, P_post = 725/54, R_est = 100, L = 1/4, yold = Some 1,
          R_est_history = [100, 100]\<rparr>"
  by (simp add: loop_body_def noise_update_def noise_covariance_estimation_def
      state_estimation_def notebook_params_def Let_def)


lemma loop_three_steps:
  "loop notebook_params 0 [(0, 0), (0, 1), (0, 8)]
     \<lparr>x = 0, x_post = 0, P_post = 100, R_est = 100, L = 0, yold = None,
      R_est_history = [0, 0, 0]\<rparr>
   = Inr \<lparr>x = 0, x_post = 24408329 / 8885516, P_post = 15306449 / 8885516,
          R_est = 101 / 10, L = 229 / 32, yold = Some 8,
          R_est_history = [100, 100, 101 / 10]\<rparr>"
  by (simp add: loop_body_def noise_update_def noise_covariance_estimation_def
      state_estimation_def notebook_params_def Let_def)

lemma loop_mean_draws:
  "loop notebook_params 0 [(1, 0), (0, 6), (0, 1)]
     \<lparr>x = 0, x_post = 0, P_post = 100, R_est = 100, L = 7, yold = None,
      R_est_history = [0, 0, 0]\<rparr>
   = Inr \<lparr>x = 1 / 4, x_post = 373810 / 395617, P_post = 830880 / 395617,
          R_est = 72 / 5, L = 17 / 2, yold = Some 2,
          R_est_history = [100, 192 / 5, 72 / 5]\<rparr>"
  by (simp add: loop_body_def noise_update_def noise_covariance_estimation_def
      state_estimation_def notebook_params_def Let_def)

text \<open>
  C3. With the quantities precomputed from \<open>F, H, Q\<close> (\<open>H \<noteq> 0\<close>) and a step count \<open>k \<ge> 1\<close>,
  the noise estimator computes \<open>Z = (1/H) (y_new - F y_prev)\<close>, updates
  \<open>L \<leftarrow> L (k - 1) / k + Z\<^sup>2 / k\<close> and returns the candidate \<open>(L_updated - CW) / S\<close> together
  with \<open>L_updated\<close>, where \<open>Minv = 1/H\<close>, \<open>b1 = - F Minv\<close>, \<open>b2 = Minv\<close>,
  \<open>S = b1\<^sup>2 + b2\<^sup>2\<close> and \<open>CW = Q\<close> (as \<open>kronA = 1\<close>).
\<close>

theorem noise_candidate_formula:
  assumes "precompute f h q = Inr c" and "1 \<le> k"
    and "Minv = 1 / h" and "b1 = - f * Minv" and "b2 = Minv"
    and "S' = b1\<^sup>2 + b2\<^sup>2" and "CW' = q"
    and "Z = (1 / h) * (y_new - f * y_prev)"
    and "L_updated = l * (real k - 1) / real k + Z\<^sup>2 / real k"
  shows "noise_covariance_estimation c k y_new y_prev l = Inr ((L_updated - CW') / S', L_updated)
         \<and> Mopi c = Minv \<and> B1 c = b1 \<and> B2 c = b2 \<and> kronA c = 1 \<and> S c = S' \<and> CW c = CW'"
proof -
  note c = precompute_Inr(2) [OF assms(1)]
  have k: "0 < k" using assms(2) by simp
  have S0: "S c \<noteq> 0" using precompute_S_pos [OF assms(1)] by simp
  have fields: "Mopi c = Minv" "B1 c = b1" "B2 c = b2" "kronA c = 1" "S c = S'" "CW c = CW'"
    "F c = f"
    unfolding assms(3-7) by (subst c, simp)+
  have M: "Mopi c = 1 / h" using fields(1) assms(3) by simp
  have "noise_covariance_estimation c k y_new y_prev l = Inr ((L_updated - CW') / S', L_updated)"
    unfolding noise_covariance_estimation_Inr [OF k S0] fields(5-7) M assms(8,9)
    by (simp add: power2_eq_square)
  with fields show ?thesis by simp
qed

theorem noise_candidate_formula_witness:
  "noise_covariance_estimation notebook_params 1 1 0 0 = Inr (- 12, 1/4)
   \<and> S notebook_params = 5/16 \<and> CW notebook_params = 4"
proof -
  have "noise_covariance_estimation notebook_params 1 1 0 0 = Inr ((1/4 - 4) / (5/16), 1/4)
     \<and> Mopi notebook_params = 1/2 \<and> B1 notebook_params = - (1/4) \<and> B2 notebook_params = 1/2
     \<and> kronA notebook_params = 1 \<and> S notebook_params = 5/16 \<and> CW notebook_params = 4"
    by (rule noise_candidate_formula [OF precompute_notebook, of 1 "1/2" "- (1/4)" "1/2" "5/16" 4 "1/2" 1 0 "1/4" 0])
       (simp_all add: power_divide)
  then show ?thesis by simp
qed

text \<open>
  C6. At a step \<open>k > 0\<close> the noise update always stores the new running mean in \<open>L\<close>;
  \<open>R_est\<close> takes the candidate when the candidate is positive and keeps its value
  otherwise, and no other variable is touched by the update. The same values of \<open>L\<close>
  and \<open>R_est\<close> stand at the end of the loop body.
\<close>

theorem L_updated_unconditionally:
  assumes "0 < k" and "yold s = Some y_prev" and "y_new = H c * x s + snd wv"
    and "noise_covariance_estimation c k y_new y_prev (L s) = Inr (R_candidate, L_new)"
  shows "noise_update c k y_new s =
           Inr (if 0 < R_candidate then s\<lparr>L := L_new, R_est := R_candidate\<rparr> else s\<lparr>L := L_new\<rparr>)
         \<and> (\<forall>s'. loop_body c k wv s = Inr s' \<longrightarrow>
                L s' = L_new \<and> R_est s' = (if 0 < R_candidate then R_candidate else R_est s))"
proof -
  have n: "noise_update c k y_new s =
             Inr (s\<lparr>L := L_new, R_est := (if 0 < R_candidate then R_candidate else R_est s)\<rparr>)"
    using assms(1,2,4) by (rule noise_update_pos)
  have b: "L s' = L_new \<and> R_est s' = (if 0 < R_candidate then R_candidate else R_est s)"
    if "loop_body c k wv s = Inr s'" for s'
  proof -
    from loop_body_InrE [OF that] obtain s1 xp pp where
      n1: "noise_update c k (H c * x s + snd wv) s = Inr s1"
      and s': "s' = s1\<lparr>R_est_history := (R_est_history s1)[k := R_est s1],
                      x_post := xp, P_post := pp, x := F c * x s1 + fst wv,
                      yold := Some (H c * x s + snd wv)\<rparr>"
      by blast
    have "s1 = s\<lparr>L := L_new, R_est := (if 0 < R_candidate then R_candidate else R_est s)\<rparr>"
      using n n1 unfolding assms(3) by simp
    then show ?thesis by (simp add: s')
  qed
  have "noise_update c k y_new s =
           Inr (if 0 < R_candidate then s\<lparr>L := L_new, R_est := R_candidate\<rparr> else s\<lparr>L := L_new\<rparr>)"
    unfolding n by (cases "0 < R_candidate") simp_all
  with b show ?thesis by blast
qed

theorem L_updated_unconditionally_witness:
  "noise_update notebook_params 1 1
     \<lparr>x = 0, x_post = 0, P_post = 100, R_est = 100, L = 0, yold = Some 0,
      R_est_history = [100, 0]\<rparr>
   = Inr \<lparr>x = 0, x_post = 0, P_post = 100, R_est = 100, L = 1/4, yold = Some 0,
          R_est_history = [100, 0]\<rparr>
   \<and> L \<lparr>x = 0, x_post = 29/108, P_post = 725/54, R_est = 100, L = 1/4, yold = Some 1,
          R_est_history = [100, 100]\<rparr> = 1/4
   \<and> R_est \<lparr>x = 0, x_post = 29/108, P_post = 725/54, R_est = 100, L = 1/4, yold = Some 1,
          R_est_history = [100, 100]\<rparr> = 100"
proof -
  let ?s = "\<lparr>x = 0, x_post = 0, P_post = 100, R_est = 100, L = 0, yold = Some 0,
      R_est_history = [100::real, 0]\<rparr>"
  have k: "0 < (1::nat)" by simp
  have y: "yold ?s = Some 0" by simp
  have m: "(1::real) = H notebook_params * x ?s + snd (0::real, 1::real)"
    by (simp add: notebook_params_def)
  have n: "noise_covariance_estimation notebook_params 1 1 0 (L ?s) = Inr (- 12, 1/4)"
    by (simp add: noise_covariance_estimation_def notebook_params_def)
  show ?thesis
    using L_updated_unconditionally [OF k y m n] body_step1_reject by simp
qed



text \<open>
  C1. Started with a positive \<open>R_est\<close>, a run of the loop over any draws (hence over any
  measurements) ends with a positive \<open>R_est\<close>, and the \<open>R_est\<close> recorded at every step of
  the run is positive.
\<close>

theorem R_est_stays_positive:
  assumes "0 < R_est s0" and "loop c 0 draws s0 = Inr s"
  shows "0 < R_est s \<and> (\<forall>i<length draws. 0 < R_est_history s ! i)"
  using loop_R_est_pos [OF assms(2,1)] by simp

theorem R_est_stays_positive_witness:
  "0 < R_est \<lparr>x = 0, x_post = 24408329 / 8885516, P_post = 15306449 / 8885516,
          R_est = 101 / 10, L = 229 / 32, yold = Some 8,
          R_est_history = [100, 100, 101 / 10]\<rparr>
   \<and> 0 < R_est_history \<lparr>x = 0, x_post = 24408329 / 8885516, P_post = 15306449 / 8885516,
          R_est = 101 / 10, L = 229 / 32, yold = Some 8,
          R_est_history = [100, 100, 101 / 10]\<rparr> ! 2"
proof -
  have p: "0 < R_est \<lparr>x = 0, x_post = 0, P_post = 100, R_est = 100, L = 0, yold = None,
      R_est_history = [0, 0, 0]\<rparr>" by simp
  have i: "2 < length [(0::real, 0::real), (0, 1), (0, 8)]" by simp
  show ?thesis using R_est_stays_positive [OF p loop_three_steps] i by blast
qed

text \<open>
  C2. A run of \<open>k + 1\<close> steps (\<open>k \<ge> 1\<close>) calls the noise estimator \<open>k\<close> times, with step
  counts \<open>1, \<dots>, k\<close> on consecutive measurements. Whatever \<open>L\<close> was at the start, \<open>L\<close> is
  then the arithmetic mean of the \<open>k\<close> squared scaled innovations
  \<open>Z\<^sub>i = Mopi (y\<^sub>i - F y\<^sub>i\<^sub>-\<^sub>1)\<close>, where \<open>y\<^sub>0, \<dots>, y\<^sub>k\<close> are the measurements of the run.
\<close>

theorem running_mean_exact:
  assumes "loop c 0 draws s0 = Inr s" and "length draws = Suc k" and "1 \<le> k"
    and "ys = ynews c (x s0) draws"
  shows "L s = (\<Sum>i<k. (Mopi c * (ys ! Suc i - F c * ys ! i))\<^sup>2) / real k"
proof -
  have two: "2 \<le> length draws" using assms(2,3) by linarith
  have k: "length draws - 1 = k" using assms(2) by simp
  from loop_invariant [OF assms(1)] two
  have "L s = (\<Sum>i<length draws - 1. Zsq c (ynews c (x s0) draws) i) / real (length draws - 1)"
    by blast
  then show ?thesis unfolding k assms(4) Zsq_def .
qed

theorem running_mean_exact_witness:
  "L \<lparr>x = 1 / 4, x_post = 373810 / 395617, P_post = 830880 / 395617,
          R_est = 72 / 5, L = 17 / 2, yold = Some 2,
          R_est_history = [100, 192 / 5, 72 / 5]\<rparr>
    = (\<Sum>i<2. (Mopi notebook_params * ([0, 8, 2] ! Suc i - F notebook_params * [0, 8, 2] ! i))\<^sup>2)
        / real 2"
proof -
  have l: "length [(1::real, 0::real), (0, 6), (0, 1)] = Suc 2" by simp
  have k: "1 \<le> (2::nat)" by simp
  have y: "[0, 8, 2] = ynews notebook_params
             (x \<lparr>x = 0, x_post = 0, P_post = 100, R_est = 100, L = 7, yold = None,
                 R_est_history = [0, 0, 0]\<rparr>) [(1, 0), (0, 6), (0, 1)]"
    by (simp add: notebook_params_def)
  show ?thesis by (rule running_mean_exact [OF loop_mean_draws l k y])
qed

section \<open>Construction\<close>

text \<open>
  C9 as stated does not hold: the notebook checks neither prior. A negative \<open>R_est\<close> and
  a negative \<open>P_post\<close> are both taken as they are, and the run with \<open>R_est = -1\<close> goes
  through and leaves a negative \<open>P_post\<close>.
\<close>

theorem priors_not_checked_counterexample:
  "initialise True (1/2) 2 4 0 0 100 (- 1) 0 1 =
     Inr (notebook_params,
          \<lparr>x = 0, x_post = 0, P_post = 100, R_est = - 1, L = 0, yold = None,
           R_est_history = [0]\<rparr>)
   \<and> initialise True (1/2) 2 4 0 0 (- 100) 100 0 1 =
     Inr (notebook_params,
          \<lparr>x = 0, x_post = 0, P_post = - 100, R_est = 100, L = 0, yold = None,
           R_est_history = [0]\<rparr>)
   \<and> run True (1/2) 2 4 0 0 100 (- 1) 0 [(0, 0)] =
     Inr \<lparr>x = 0, x_post = 0, P_post = - (29 / 115), R_est = - 1, L = 0,
          yold = Some 0, R_est_history = [- 1]\<rparr>"
proof -
  have a: "precompute (1/2) 2 4 = Inr notebook_params" by (rule precompute_notebook)
  have b: "loop_body notebook_params 0 (0, 0)
     \<lparr>x = 0, x_post = 0, P_post = 100, R_est = - 1, L = 0, yold = None,
      R_est_history = [0]\<rparr>
     = Inr \<lparr>x = 0, x_post = 0, P_post = - (29 / 115), R_est = - 1, L = 0,
          yold = Some 0, R_est_history = [- 1]\<rparr>"
    by (simp add: loop_body_def noise_update_def state_estimation_def notebook_params_def Let_def)
  show ?thesis by (simp add: run_def initialise_def print_k_def a b)
qed

text \<open>
  C9, amended. With \<open>H = 0\<close> setting up the run fails, at line 76, with the
  ZeroDivisionError of \<^verbatim>\<open>Mopi = 1/H\<close>. The priors are never checked: whether the set-up
  fails, and with which error, does not depend on the priors \<open>x_post\<close>, \<open>P_post\<close>, \<open>R_est\<close>
  and \<open>L\<close>, and when it succeeds they are stored as given, whatever their sign.
\<close>

theorem H_zero_fails_priors_unchecked:
  "initialise np f 0 q x0 x_post0 P_post0 R_est0 L0 T = Inl ZeroDivisionError
   \<and> (initialise np f h q x0 x_post0 P_post0 R_est0 L0 T = Inl e
        \<longleftrightarrow> initialise np f h q x0 x_post1 P_post1 R_est1 L1 T = Inl e)
   \<and> (initialise np f h q x0 x_post0 P_post0 R_est0 L0 T = Inr (c, s)
        \<longrightarrow> x_post s = x_post0 \<and> P_post s = P_post0 \<and> R_est s = R_est0 \<and> L s = L0)"
proof (intro conjI impI)
  show "initialise np f 0 q x0 x_post0 P_post0 R_est0 L0 T = Inl ZeroDivisionError"
    by (rule initialise_H_zero)
next
  show "initialise np f h q x0 x_post0 P_post0 R_est0 L0 T = Inl e
        \<longleftrightarrow> initialise np f h q x0 x_post1 P_post1 R_est1 L1 T = Inl e"
    by (rule initialise_Inl_priors)
next
  assume i: "initialise np f h q x0 x_post0 P_post0 R_est0 L0 T = Inr (c, s)"
  note st = initialise_Inr_state [OF i]
  show "x_post s = x_post0" by (subst st) simp
  show "P_post s = P_post0" by (subst st) simp
  show "R_est s = R_est0" by (subst st) simp
  show "L s = L0" by (subst st) simp
qed

theorem H_zero_fails_priors_unchecked_witness:
  "initialise True (1/2) 0 4 0 0 100 100 0 2 = Inl ZeroDivisionError
   \<and> initialise True (1/2) 0 4 0 0 (- 100) (- 1) 0 2 = Inl ZeroDivisionError
   \<and> P_post \<lparr>x = 0, x_post = 0, P_post = - 100, R_est = - 1, L = 0, yold = None,
               R_est_history = [0, 0]\<rparr> = - 100
   \<and> R_est \<lparr>x = 0, x_post = 0, P_post = - 100, R_est = - 1, L = 0, yold = None,
               R_est_history = [0, 0]\<rparr> = - 1"
proof -
  let ?s = "\<lparr>x = 0, x_post = 0, P_post = - 100, R_est = - 1, L = 0, yold = None,
               R_est_history = [0::real, 0]\<rparr>"
  have r: "replicate 2 (0::real) = [0, 0]" by (simp add: numeral_2_eq_2)
  have i: "initialise True (1/2) 2 4 0 0 (- 100) (- 1) 0 2 = Inr (notebook_params, ?s)"
    by (simp add: initialise_def print_k_def precompute_notebook r)
  note z = H_zero_fails_priors_unchecked
    [of True "1/2" 4 0 0 100 100 0 2 0 ZeroDivisionError 0 "- 100" "- 1" 0 notebook_params ?s]
  note n = H_zero_fails_priors_unchecked
    [of True "1/2" 4 0 0 "- 100" "- 1" 0 2 2 ZeroDivisionError 0 100 100 0 notebook_params ?s]
  have a: "initialise True (1/2) 0 4 0 0 100 100 0 2 = Inl ZeroDivisionError"
    using z by blast
  have b: "initialise True (1/2) 0 4 0 0 (- 100) (- 1) 0 2 = Inl ZeroDivisionError"
    using z a by blast
  have c: "P_post ?s = - 100 \<and> R_est ?s = - 1"
    using n i by blast
  from a b c show ?thesis by blast
qed

end
